theory Spec2Isabelle
  imports Main "HOL-Library.Word"
begin

section \<open>size-label-action: the decision core of \<open>src/index.js\<close>\<close>

text \<open>
  The development embeds the four pure parts of \<open>index.js\<close>: the ignore predicate built by
  \<open>parseIgnored\<close>, the metric loop of \<open>main\<close>, the classifier \<open>getSizeLabel\<close> and the
  reconciler \<open>getLabelChanges\<close>.

  Conventions. Label names, paths and patterns are \<^typ>\<open>string\<close>s (ASCII); a line of a
  diff hunk, where Cyrillic letters are counted, is a list of UTF-16 code units. A
  JavaScript value that may be \<open>null\<close> or \<open>undefined\<close> is an \<^typ>\<open>'a option\<close>. Numbers
  are counts of characters and threshold keys, modelled as \<^typ>\<open>nat\<close> (JavaScript doubles
  are exact on integers below \<open>2^53\<close>). An exception thrown by the source is a value
  \<open>Inl e\<close>.
\<close>

subsection \<open>Values\<close>

datatype error = TypeError | SyntaxError

text \<open>
  A label object of the event payload (\<open>eventData.pull_request.labels\<close>); the reconciler
  reads only its \<open>name\<close>.
\<close>

record label =
  name :: string

text \<open>
  An element of the \<open>existingLabels\<close> array. The payload holds label objects; primitive
  elements are included so that every way the loop of \<open>getLabelChanges\<close> can run is a
  branch of the model.
\<close>

datatype js_value = JNull | JString string | JObject label

text \<open>The result \<open>{ add, remove }\<close>. \<open>add\<close> starts as \<open>[newLabel]\<close>, and \<open>newLabel\<close> may be \<open>null\<close>.\<close>

record delta =
  add :: "string option list"
  remove :: "string list"

subsection \<open>String and array primitives\<close>

text \<open>\<open>s.startsWith(p)\<close>.\<close>

definition startsWith :: "string \<Rightarrow> string \<Rightarrow> bool" where
  "startsWith s p = (take (length p) s = p)"

text \<open>
  \<open>xs.includes(s)\<close> for a primitive string \<open>s\<close>: \<open>includes\<close> compares with SameValueZero,
  under which a primitive string equals only a primitive string of the same characters;
  an object (and \<open>null\<close>) never equals it.
\<close>

fun array_includes :: "js_value list \<Rightarrow> string \<Rightarrow> bool" where
  "array_includes [] s = False"
| "array_includes (JString t # xs) s = (t = s \<or> array_includes xs s)"
| "array_includes (JNull # xs) s = array_includes xs s"
| "array_includes (JObject l # xs) s = array_includes xs s"

subsection \<open>getLabelChanges\<close>

text \<open>
  The \<open>for ... of\<close> loop over \<open>existingLabels\<close> (lines 203--212), threading \<open>add\<close> and
  \<open>remove\<close>. \<open>const { name } = existingLabel\<close> throws on \<open>null\<close>; on a primitive string
  it yields \<open>undefined\<close>, and \<open>name.startsWith\<close> throws. \<open>add.pop()\<close> drops the last element
  and leaves an empty array empty. \<open>name === newLabel\<close> is strict equality of a string with
  a string or \<open>null\<close>.
\<close>

fun sizeLoop :: "string option \<Rightarrow> js_value list \<Rightarrow> string option list \<times> string list
    \<Rightarrow> error + (string option list \<times> string list)" where
  "sizeLoop newLabel [] (ad, rm) = Inr (ad, rm)"
| "sizeLoop newLabel (JObject l # rest) (ad, rm) =
     (if startsWith (name l) ''size/''
      then (if Some (name l) = newLabel
            then sizeLoop newLabel rest (butlast ad, rm)
            else sizeLoop newLabel rest (ad, rm @ [name l]))
      else sizeLoop newLabel rest (ad, rm))"
| "sizeLoop newLabel (JNull # rest) (ad, rm) = Inl TypeError"
| "sizeLoop newLabel (JString s # rest) (ad, rm) = Inl TypeError"

text \<open>Lines 213--221: the \<open>translation\<close> marker.\<close>

definition translationStep :: "string option \<Rightarrow> js_value list
    \<Rightarrow> string option list \<times> string list \<Rightarrow> string option list \<times> string list" where
  "translationStep newLabel existingLabels st =
     (case st of (ad, rm) \<Rightarrow>
        if newLabel = Some ''size/XXS''
        then (if array_includes existingLabels ''translation''
              then (ad, rm @ [''translation'']) else (ad, rm))
        else (if \<not> array_includes existingLabels ''translation''
              then (ad @ [Some ''translation''], rm) else (ad, rm)))"

text \<open>Lines 222--230: the \<open>update\<close> marker.\<close>

definition updateStep :: "bool \<Rightarrow> js_value list
    \<Rightarrow> string option list \<times> string list \<Rightarrow> string option list \<times> string list" where
  "updateStep hasUpdatedOldFiles existingLabels st =
     (case st of (ad, rm) \<Rightarrow>
        if hasUpdatedOldFiles
        then (if \<not> array_includes existingLabels ''update''
              then (ad @ [Some ''update''], rm) else (ad, rm))
        else (if array_includes existingLabels ''update''
              then (ad, rm @ [''update'']) else (ad, rm)))"

definition getLabelChanges :: "string option \<Rightarrow> js_value list \<Rightarrow> bool \<Rightarrow> error + delta" where
  "getLabelChanges newLabel existingLabels hasUpdatedOldFiles =
     (case sizeLoop newLabel existingLabels ([newLabel], []) of
        Inl e \<Rightarrow> Inl e
      | Inr st \<Rightarrow>
          (case updateStep hasUpdatedOldFiles existingLabels
                  (translationStep newLabel existingLabels st) of
             (ad, rm) \<Rightarrow> Inr \<lparr>add = ad, remove = rm\<rparr>))"

subsection \<open>getSizeLabel\<close>

text \<open>
  A threshold table is a JavaScript object from numeric keys to tier names, here an
  association list; the keys of an object are unique, which is \<open>distinct (map fst sizes)\<close>.
\<close>

type_synonym sizes_table = "(nat \<times> string) list"

definition defaultSizes :: sizes_table where
  "defaultSizes =
     [(1, ''XXS''), (10, ''XS''), (100, ''S''), (1000, ''M''),
      (5000, ''L''), (10000, ''XL''), (20000, ''XXL'')]"

text \<open>\<open>Object.keys(sizes)\<close>.\<close>

definition Object_keys :: "sizes_table \<Rightarrow> nat list" where
  "Object_keys sizes = map fst sizes"

text \<open>\<open>sizes[lines]\<close> inside the template literal; a missing property prints as \<open>undefined\<close>.\<close>

definition sizes_at :: "sizes_table \<Rightarrow> nat \<Rightarrow> string" where
  "sizes_at sizes lines = (case map_of sizes lines of Some v \<Rightarrow> v | None \<Rightarrow> ''undefined'')"

text \<open>The loop of lines 192--196 over the sorted keys, threading \<open>label\<close>.\<close>

fun labelLoop :: "nat \<Rightarrow> sizes_table \<Rightarrow> nat list \<Rightarrow> string option \<Rightarrow> string option" where
  "labelLoop changedLines sizes [] label = label"
| "labelLoop changedLines sizes (lines # rest) label =
     labelLoop changedLines sizes rest
       (if changedLines \<ge> lines then Some (''size/'' @ sizes_at sizes lines) else label)"

text \<open>
  \<open>getSizeLabel(changedLines, sizes = defaultSizes)\<close>: the default applies when the argument
  is \<open>undefined\<close> (\<open>None\<close>). \<open>.sort((a, b) => a - b)\<close> orders the keys by their numeric value.
\<close>

definition getSizeLabel :: "nat \<Rightarrow> sizes_table option \<Rightarrow> string option" where
  "getSizeLabel changedLines sizes =
     (let table = (case sizes of None \<Rightarrow> defaultSizes | Some t \<Rightarrow> t)
      in labelLoop changedLines table (sort (Object_keys table)) None)"

subsection \<open>parseIgnored and isIgnored\<close>

text \<open>
  An element of the array \<open>ignored\<close>: \<open>{ not: globrex(...) }\<close> for a line that starts with
  \<open>!\<close>, the result of \<open>globrex\<close> itself otherwise. \<open>'r\<close> is the compiled regular
  expression.
\<close>

datatype 'r entry = EntryNot 'r | EntryRegex 'r

text \<open>\<open>str.split(/\r|\n/)\<close>: a new piece starts after every carriage return or line feed.\<close>

definition isLineBreak :: "char \<Rightarrow> bool" where
  "isLineBreak c = (c = CHR 0x0D \<or> c = CHR 0x0A)"

fun split_lines :: "string \<Rightarrow> string list" where
  "split_lines [] = [[]]"
| "split_lines (c # cs) =
     (if isLineBreak c then [] # split_lines cs
      else (case split_lines cs of [] \<Rightarrow> [[c]] | w # ws \<Rightarrow> (c # w) # ws))"

text \<open>\<open>s.trim()\<close>, on the ASCII white space: tab, line feed, vertical tab, form feed,
  carriage return and space.\<close>

definition isWhiteSpace :: "char \<Rightarrow> bool" where
  "isWhiteSpace c = (c \<in> set [CHR 0x09, CHR 0x0A, CHR 0x0B, CHR 0x0C, CHR 0x0D, CHR 0x20])"

definition trim :: "string \<Rightarrow> string" where
  "trim s = rev (dropWhile isWhiteSpace (rev (dropWhile isWhiteSpace s)))"

text \<open>
  The last \<open>map\<close> of \<open>parseIgnored\<close> (lines 153--157). \<open>globrex\<close> is a library outside the
  repository and is a parameter: it compiles a pattern or throws. \<open>s.substr(1)\<close> is
  \<open>tl s\<close>; an exception of \<open>globrex\<close> ends \<open>parseIgnored\<close>.
\<close>

fun compileEntries :: "(string \<Rightarrow> error + 'r) \<Rightarrow> string list \<Rightarrow> error + 'r entry list" where
  "compileEntries globrex [] = Inr []"
| "compileEntries globrex (s # ss) =
     (case (if length s > 1 \<and> hd s = CHR ''!''
            then map_sum id EntryNot (globrex (tl s))
            else map_sum id EntryRegex (globrex s)) of
        Inl e \<Rightarrow> Inl e
      | Inr en \<Rightarrow>
          (case compileEntries globrex ss of
             Inl e \<Rightarrow> Inl e
           | Inr es \<Rightarrow> Inr (en # es)))"

text \<open>\<open>parseIgnored(str = "")\<close> up to the array \<open>ignored\<close>.\<close>

definition parseIgnored :: "(string \<Rightarrow> error + 'r) \<Rightarrow> string option \<Rightarrow> error + 'r entry list" where
  "parseIgnored globrex str =
     compileEntries globrex
       (filter (\<lambda>s. length s > 0 \<and> \<not> startsWith s ''#'')
          (map trim (split_lines (case str of None \<Rightarrow> [] | Some s \<Rightarrow> s))))"

text \<open>
  The loop of \<open>isIgnored\<close> (lines 164--172), threading \<open>ignore\<close>; \<open>regexMatch r p\<close> is
  \<open>p.match(r.regex)\<close> being non-null. A matching \<open>not\<close> entry returns at once.
\<close>

fun ignoreLoop :: "('r \<Rightarrow> string \<Rightarrow> bool) \<Rightarrow> string \<Rightarrow> 'r entry list \<Rightarrow> bool \<Rightarrow> bool" where
  "ignoreLoop regexMatch pathname [] ignore = ignore"
| "ignoreLoop regexMatch pathname (EntryNot r # rest) ignore =
     (if regexMatch r pathname then False
      else ignoreLoop regexMatch pathname rest ignore)"
| "ignoreLoop regexMatch pathname (EntryRegex r # rest) ignore =
     (if \<not> ignore \<and> regexMatch r pathname
      then ignoreLoop regexMatch pathname rest True
      else ignoreLoop regexMatch pathname rest ignore)"

text \<open>
  The closure \<open>isIgnored(path)\<close> over the array \<open>ignored\<close>. \<open>path == null\<close> holds for \<open>null\<close>
  and \<open>undefined\<close> (\<open>None\<close>); \<open>path.substr(2)\<close> is \<open>drop 2 path\<close>.
\<close>

definition isIgnored :: "('r \<Rightarrow> string \<Rightarrow> bool) \<Rightarrow> 'r entry list \<Rightarrow> string option \<Rightarrow> bool" where
  "isIgnored regexMatch ignored path =
     (case path of
        None \<Rightarrow> True
      | Some p \<Rightarrow>
          if p = ''/dev/null'' then True
          else ignoreLoop regexMatch (drop 2 p) ignored False)"

subsection \<open>The metric loop of main\<close>

text \<open>A line of a hunk, as UTF-16 code units.\<close>

type_synonym js_line = "16 word list"

record hunk =
  lines :: "js_line list"

record diff_file =
  oldFileName :: "string option"
  newFileName :: "string option"
  hunks :: "hunk list"

text \<open>\<open>line[0] === "+"\<close>; on the empty string \<open>line[0]\<close> is \<open>undefined\<close>.\<close>

definition isAddedLine :: "js_line \<Rightarrow> bool" where
  "isAddedLine line = (case line of [] \<Rightarrow> False | c # _ \<Rightarrow> c = 0x2B)"

text \<open>\<open>(line.match(UKRAINIAN_REGEX) || []).length\<close> for the global pattern of the
  code units \<open>0x0400\<close> to \<open>0x04FF\<close>: the number of such units in the line.\<close>

definition ukrainianMatches :: "js_line \<Rightarrow> nat" where
  "ukrainianMatches line = length (filter (\<lambda>u. 0x0400 \<le> u \<and> u \<le> 0x04FF) line)"

fun lineLoop :: "js_line list \<Rightarrow> nat \<Rightarrow> nat" where
  "lineLoop [] n = n"
| "lineLoop (line # rest) n =
     lineLoop rest (if isAddedLine line then n + ukrainianMatches line else n)"

fun hunkLoop :: "hunk list \<Rightarrow> nat \<Rightarrow> nat" where
  "hunkLoop [] n = n"
| "hunkLoop (h # rest) n = hunkLoop rest (lineLoop (lines h) n)"

text \<open>
  Lines 76--90: \<open>ukrainianCharactersNumber\<close> after the loop over \<open>diffData\<close>, started at
  \<open>n\<close>; \<open>ignored\<close> is the closure returned by \<open>parseIgnored\<close>.
\<close>

fun fileLoop :: "(string option \<Rightarrow> bool) \<Rightarrow> diff_file list \<Rightarrow> nat \<Rightarrow> nat" where
  "fileLoop ignored [] n = n"
| "fileLoop ignored (file # rest) n =
     fileLoop ignored rest
       (if \<not> ignored (oldFileName file) \<or> \<not> ignored (newFileName file)
        then hunkLoop (hunks file) n else n)"

definition ukrainianCharactersNumber :: "(string option \<Rightarrow> bool) \<Rightarrow> diff_file list \<Rightarrow> nat" where
  "ukrainianCharactersNumber ignored diffData = fileLoop ignored diffData 0"

subsection \<open>Glob patterns\<close>

text \<open>
  Modelled from the spec: \<open>globrex\<close>, the pattern compiler, is a library that is not part of
  the repository's source. The spec gives shell-glob semantics in which the globstar
  matches across path separators: here an ordinary character matches itself, \<open>*\<close> matches
  any run of characters other than \<open>/\<close>, and \<open>**\<close> matches any run of characters. The other
  forms of the extended syntax (character classes, brace alternation, \<open>?\<close>) are not
  modelled; a pattern that uses them is outside this definition. The whole path must match.
\<close>

function globMatch :: "string \<Rightarrow> string \<Rightarrow> bool" where
  "globMatch [] s = (s = [])"
| "globMatch (c # p) s =
     (if c = CHR ''*'' then
        (case p of
           c' # p' \<Rightarrow>
             if c' = CHR ''*''
             then (globMatch p' s \<or>
                   (case s of [] \<Rightarrow> False | x # xs \<Rightarrow> globMatch (c # p) xs))
             else (globMatch p s \<or>
                   (case s of [] \<Rightarrow> False | x # xs \<Rightarrow> x \<noteq> CHR ''/'' \<and> globMatch (c # p) xs))
         | [] \<Rightarrow> (case s of [] \<Rightarrow> True | x # xs \<Rightarrow> x \<noteq> CHR ''/'' \<and> globMatch (c # p) xs))
      else (case s of [] \<Rightarrow> False | x # xs \<Rightarrow> x = c \<and> globMatch p xs))"
  by pat_completeness auto
termination
  by (relation "measure (\<lambda>(p, s). length p + length s)") auto

text \<open>Modelled from the spec: compiling a pattern of this fragment never fails.\<close>

definition specGlobrex :: "string \<Rightarrow> error + string" where
  "specGlobrex pattern = Inr pattern"

subsection \<open>Notions of the specification\<close>

text \<open>
  Applying a delta to the labels of a pull request, as the specification describes it:
  every name in \<open>add\<close> that is not attached yet is attached, then every name in \<open>remove\<close>
  is detached. A \<open>null\<close> entry of \<open>add\<close> names no label.
\<close>

definition applyDelta :: "label list \<Rightarrow> delta \<Rightarrow> label list" where
  "applyDelta current d =
     filter (\<lambda>l. name l \<notin> set (remove d))
       (current @
        map (\<lambda>n. \<lparr>name = n\<rparr>)
          (filter (\<lambda>n. n \<notin> set (map name current)) (remdups (List.map_filter id (add d)))))"

text \<open>
  The index of a tier of the default table: the absent label is 0, and the tiers count
  from 1 in the order of their threshold keys.
\<close>

definition tierLabels :: "string list" where
  "tierLabels = map (\<lambda>k. ''size/'' @ sizes_at defaultSizes k) (sort (Object_keys defaultSizes))"

definition tierIndex :: "string option \<Rightarrow> nat" where
  "tierIndex label =
     (case label of
        None \<Rightarrow> 0
      | Some l \<Rightarrow> Suc (length (takeWhile (\<lambda>x. x \<noteq> l) tierLabels)))"

text \<open>
  A desired size label is what \<open>getSizeLabel\<close> can return: \<open>null\<close>, or a string in the
  \<open>size/\<close> family.
\<close>

definition desiredSizeLabel :: "string option \<Rightarrow> bool" where
  "desiredSizeLabel l = (case l of None \<Rightarrow> True | Some s \<Rightarrow> startsWith s ''size/'')"

section \<open>The reconciler\<close>

subsection \<open>What getLabelChanges computes\<close>

text \<open>
  Whenever the loop over \<open>existingLabels\<close> returns, every element was a label object, and
  \<open>existingLabels.includes(s)\<close> is false for every string \<open>s\<close>: the array holds objects, and
  the test compares them with a string.
\<close>

lemma sizeLoop_Inr_no_includes:
  "sizeLoop newLabel xs st = Inr st' \<Longrightarrow> \<not> array_includes xs s"
  by (induction newLabel xs st rule: sizeLoop.induct) (auto split: if_splits)

lemma getLabelChanges_Inr_no_includes:
  "getLabelChanges newLabel xs f = Inr d \<Longrightarrow> \<not> array_includes xs s"
  by (auto simp: getLabelChanges_def split: sum.splits dest: sizeLoop_Inr_no_includes)

lemma array_includes_objects: "\<not> array_includes (map JObject labels) s"
  by (induction labels) simp_all

text \<open>
  The loop on an array of label objects: \<open>add\<close> (of at most one element) is emptied when
  some \<open>size/\<close> label equals \<open>newLabel\<close>, and every other \<open>size/\<close> label is appended to
  \<open>remove\<close>, in order.
\<close>

lemma sizeLoop_objects:
  "length ad \<le> 1 \<Longrightarrow>
   sizeLoop newLabel (map JObject labels) (ad, rm) =
     Inr (if \<exists>l \<in> set labels. startsWith (name l) ''size/'' \<and> Some (name l) = newLabel
          then [] else ad,
          rm @ filter (\<lambda>n. startsWith n ''size/'' \<and> Some n \<noteq> newLabel) (map name labels))"
proof (induction labels arbitrary: ad rm)
  case Nil
  then show ?case by simp
next
  case (Cons l labels)
  have short: "butlast ad = []"
    using Cons.prems by (cases ad) auto
  show ?case
    using Cons.IH [of ad "rm @ [name l]"] Cons.IH [of ad rm] Cons.IH [of "[]" rm] Cons.prems
    by (simp add: short)
qed

text \<open>On label objects \<open>getLabelChanges\<close> always returns, and this is its result.\<close>

lemma getLabelChanges_objects:
  "getLabelChanges newLabel (map JObject labels) f =
     Inr \<lparr>add =
            (if \<exists>l \<in> set labels. startsWith (name l) ''size/'' \<and> Some (name l) = newLabel
             then [] else [newLabel])
            @ (if newLabel = Some ''size/XXS'' then [] else [Some ''translation''])
            @ (if f then [Some ''update''] else []),
          remove = filter (\<lambda>n. startsWith n ''size/'' \<and> Some n \<noteq> newLabel) (map name labels)\<rparr>"
  by (simp add: getLabelChanges_def sizeLoop_objects translationStep_def updateStep_def
      array_includes_objects)

lemmas getLabelChanges_eval =
  getLabelChanges_def translationStep_def updateStep_def startsWith_def

subsection \<open>Claims about the markers and idempotence\<close>

text \<open>
  Claim C1: applying the delta of \<open>getLabelChanges\<close> and running it again on the resulting
  labels gives an empty delta. The code does not do this. For the desired label \<open>size/M\<close>,
  no current labels and the flag false, the delta adds \<open>size/M\<close> and \<open>translation\<close>; on
  the labels that result, the second run schedules \<open>translation\<close> again.
\<close>

theorem getLabelChanges_rerun_adds_again:
  "getLabelChanges (Some ''size/M'') (map JObject []) False =
     Inr \<lparr>add = [Some ''size/M'', Some ''translation''], remove = []\<rparr> \<and>
   applyDelta [] \<lparr>add = [Some ''size/M'', Some ''translation''], remove = []\<rparr> =
     [\<lparr>name = ''size/M''\<rparr>, \<lparr>name = ''translation''\<rparr>] \<and>
   getLabelChanges (Some ''size/M'')
       (map JObject [\<lparr>name = ''size/M''\<rparr>, \<lparr>name = ''translation''\<rparr>]) False =
     Inr \<lparr>add = [Some ''translation''], remove = []\<rparr>"
  by (simp add: getLabelChanges_eval applyDelta_def List.map_filter_def)

text \<open>
  Claim C2: with the desired label \<open>size/XXS\<close> a present \<open>translation\<close> label is scheduled
  for removal; with any other desired label \<open>translation\<close> is added exactly when it is
  absent. The code does neither where the label is present: with \<open>size/XXS\<close> desired and
  \<open>translation\<close> attached nothing is removed, and with \<open>size/M\<close> desired and \<open>translation\<close>
  attached it is added again.
\<close>

theorem getLabelChanges_translation_present:
  "getLabelChanges (Some ''size/XXS'') [JObject \<lparr>name = ''translation''\<rparr>] False =
     Inr \<lparr>add = [Some ''size/XXS''], remove = []\<rparr> \<and>
   getLabelChanges (Some ''size/M'')
       [JObject \<lparr>name = ''size/M''\<rparr>, JObject \<lparr>name = ''translation''\<rparr>] False =
     Inr \<lparr>add = [Some ''translation''], remove = []\<rparr>"
  by (simp add: getLabelChanges_eval)

text \<open>
  Claim C3: with the flag true \<open>update\<close> is added exactly when it is absent; with the flag
  false it is removed exactly when it is present. The code does neither where the label is
  present: with \<open>update\<close> attached, the flag true adds it again and the flag false removes
  nothing.
\<close>

theorem getLabelChanges_update_present:
  "getLabelChanges (Some ''size/XXS'')
       [JObject \<lparr>name = ''size/XXS''\<rparr>, JObject \<lparr>name = ''update''\<rparr>] True =
     Inr \<lparr>add = [Some ''update''], remove = []\<rparr> \<and>
   getLabelChanges (Some ''size/XXS'')
       [JObject \<lparr>name = ''size/XXS''\<rparr>, JObject \<lparr>name = ''update''\<rparr>] False =
     Inr \<lparr>add = [], remove = []\<rparr>"
  by (simp add: getLabelChanges_eval)

text \<open>
  Conversely, a run that returns was given label objects only, so the result above
  describes every run that returns. Whatever the labels, \<open>translation\<close> and \<open>update\<close> are
  never scheduled for removal, \<open>translation\<close> is added whenever the desired label is not
  \<open>size/XXS\<close>, and \<open>update\<close> is added whenever the flag is true.
\<close>

lemma sizeLoop_Inr_objects:
  "sizeLoop newLabel xs st = Inr st' \<Longrightarrow> \<exists>labels. xs = map JObject labels"
proof (induction newLabel xs st rule: sizeLoop.induct)
  case (2 newLabel l rest ad rm)
  then obtain labels where "rest = map JObject labels"
    by (auto split: if_splits)
  then have "JObject l # rest = map JObject (l # labels)"
    by simp
  then show ?case by (rule exI)
qed simp_all

lemma getLabelChanges_Inr_objects:
  "getLabelChanges newLabel xs f = Inr d \<Longrightarrow> \<exists>labels. xs = map JObject labels"
  by (auto simp: getLabelChanges_def split: sum.splits dest: sizeLoop_Inr_objects)

lemma getLabelChanges_markers:
  assumes "getLabelChanges newLabel xs f = Inr d"
  shows "''translation'' \<notin> set (remove d) \<and> ''update'' \<notin> set (remove d) \<and>
         (newLabel \<noteq> Some ''size/XXS'' \<longrightarrow> Some ''translation'' \<in> set (add d)) \<and>
         (f \<longrightarrow> Some ''update'' \<in> set (add d))"
proof -
  obtain labels where xs: "xs = map JObject labels"
    using assms getLabelChanges_Inr_objects by blast
  show ?thesis
    using assms unfolding xs getLabelChanges_objects
    by (auto simp: startsWith_def)
qed

text \<open>
  How far the second run is from empty: after the delta is applied, running
  \<open>getLabelChanges\<close> again gives an empty delta exactly when the desired label is
  \<open>size/XXS\<close> and the flag is false, the one case in which a marker that is not found
  leads to no change.
\<close>

lemma set_map_filter_id: "set (List.map_filter id xs) = {n. Some n \<in> set xs}"
  by (induction xs) (auto simp: List.map_filter_def)

lemma names_applyDelta:
  "name ` set (applyDelta current d) =
     (name ` set current \<union> {n. Some n \<in> set (add d)}) - set (remove d)"
proof -
  let ?new = "{n. Some n \<in> set (add d) \<and> n \<notin> name ` set current}"
  have kept: "name ` {l \<in> A. name l \<notin> R} = name ` A - R" for A :: "label set" and R
    by blast
  have made: "name ` (\<lambda>n. \<lparr>name = n\<rparr>) ` T = T" for T
    by (simp add: image_image)
  have "set (applyDelta current d) =
      {l \<in> set current \<union> (\<lambda>n. \<lparr>name = n\<rparr>) ` ?new. name l \<notin> set (remove d)}"
    unfolding applyDelta_def set_filter set_append set_map set_remdups set_map_filter_id
    by simp
  then have "name ` set (applyDelta current d) = (name ` set current \<union> ?new) - set (remove d)"
    by (simp only: kept image_Un made)
  then show ?thesis
    by blast
qed

lemma getLabelChanges_rerun_empty_iff:
  assumes "getLabelChanges newLabel (map JObject labels) f = Inr d"
    and "getLabelChanges newLabel (map JObject (applyDelta labels d)) f = Inr d'"
  shows "(add d' = [] \<and> remove d' = []) \<longleftrightarrow> (newLabel = Some ''size/XXS'' \<and> \<not> f)"
proof (cases "newLabel = Some ''size/XXS'' \<and> \<not> f")
  case False
  then show ?thesis
    using assms(2) getLabelChanges_markers [OF assms(2)] by auto
next
  case True
  have sw: "startsWith n ''size/'' \<and> n = ''size/XXS'' \<longleftrightarrow> n = ''size/XXS''" for n
    by (auto simp: startsWith_def)
  have d: "d = \<lparr>add = (if \<exists>l \<in> set labels. name l = ''size/XXS'' then [] else [Some ''size/XXS'']),
                remove = filter (\<lambda>n. startsWith n ''size/'' \<and> n \<noteq> ''size/XXS'') (map name labels)\<rparr>"
    using assms(1) True unfolding getLabelChanges_objects
    by (auto simp: sw)
  have names: "name ` set (applyDelta labels d) =
      (name ` set labels \<union> {''size/XXS''}) - {n \<in> name ` set labels. startsWith n ''size/'' \<and> n \<noteq> ''size/XXS''}"
  proof -
    have ex: "(\<exists>l \<in> set labels. name l = ''size/XXS'') \<longleftrightarrow> ''size/XXS'' \<in> name ` set labels"
      by force
    show ?thesis
      unfolding names_applyDelta d ex
      by (cases "''size/XXS'' \<in> name ` set labels") (simp_all, blast+)
  qed
  have in': "''size/XXS'' \<in> name ` set (applyDelta labels d)"
    unfolding names by simp
  have out': "\<forall>n \<in> name ` set (applyDelta labels d). startsWith n ''size/'' \<longrightarrow> n = ''size/XXS''"
    unfolding names by auto
  have "filter (\<lambda>n. startsWith n ''size/'' \<and> Some n \<noteq> newLabel) (map name (applyDelta labels d)) = []"
    using out' True by (auto simp: filter_empty_conv)
  moreover have "\<exists>l \<in> set (applyDelta labels d). startsWith (name l) ''size/'' \<and> Some (name l) = newLabel"
    using in' True by (auto simp: sw)
  ultimately show ?thesis
    using assms(2) True unfolding getLabelChanges_objects by auto
qed

subsection \<open>Claims that hold of the reconciler\<close>

text \<open>
  Claim C5: for every desired size label, current labels and flag, \<open>getLabelChanges\<close>
  returns a delta in which no label name is in both \<open>add\<close> and \<open>remove\<close>.
\<close>

theorem getLabelChanges_add_remove_disjoint:
  "\<exists>d. getLabelChanges newLabel (map JObject labels) f = Inr d \<and>
       (\<forall>n. \<not> (Some n \<in> set (add d) \<and> n \<in> set (remove d)))"
  by (auto simp: getLabelChanges_objects startsWith_def)

theorem getLabelChanges_add_remove_disjoint_witness:
  "\<exists>d. getLabelChanges (Some ''size/M'')
          (map JObject [\<lparr>name = ''size/S''\<rparr>, \<lparr>name = ''size/M''\<rparr>, \<lparr>name = ''update''\<rparr>]) True = Inr d \<and>
       (\<forall>n. \<not> (Some n \<in> set (add d) \<and> n \<in> set (remove d)))"
  by (rule getLabelChanges_add_remove_disjoint)

text \<open>
  Claim C10: for every desired size label (\<open>null\<close> or a name in the \<open>size/\<close> family),
  current labels and flag, the \<open>add\<close> list of \<open>getLabelChanges\<close> has no duplicate and at
  most three entries.
\<close>

theorem getLabelChanges_add_distinct:
  assumes "desiredSizeLabel newLabel"
  shows "\<exists>d. getLabelChanges newLabel (map JObject labels) f = Inr d \<and>
           distinct (add d) \<and> length (add d) \<le> 3"
  using assms
  by (auto simp: getLabelChanges_objects desiredSizeLabel_def startsWith_def split: option.splits)

theorem getLabelChanges_add_distinct_witness:
  "desiredSizeLabel (Some ''size/L'') \<and>
   (\<exists>d. getLabelChanges (Some ''size/L'') (map JObject [\<lparr>name = ''size/S''\<rparr>]) True = Inr d \<and>
        distinct (add d) \<and> length (add d) \<le> 3)"
proof -
  have h: "desiredSizeLabel (Some ''size/L'')"
    by (simp add: desiredSizeLabel_def startsWith_def)
  from h getLabelChanges_add_distinct [OF h] show ?thesis
    by (rule conjI)
qed

section \<open>The classifier\<close>

text \<open>
  Over keys in ascending order the loop keeps the label of the greatest key that is at
  most the metric, and its initial value when there is none.
\<close>

lemma labelLoop_sorted:
  "sorted ks \<Longrightarrow>
   labelLoop m t ks acc =
     (if \<exists>k \<in> set ks. k \<le> m
      then Some (''size/'' @ sizes_at t (Max {k \<in> set ks. k \<le> m}))
      else acc)"
proof (induction ks arbitrary: acc)
  case Nil
  then show ?case by simp
next
  case (Cons k ks)
  have low: "\<forall>x \<in> set ks. k \<le> x" and srt: "sorted ks"
    using Cons.prems by simp_all
  show ?case
  proof (cases "\<exists>x \<in> set ks. x \<le> m")
    case True
    then obtain x where x: "x \<in> set ks" "x \<le> m" by blast
    have km: "k \<le> m" using low x by force
    have ne: "{x \<in> set ks. x \<le> m} \<noteq> {}" using x by blast
    have "{x \<in> set (k # ks). x \<le> m} = insert k {x \<in> set ks. x \<le> m}"
      using km by auto
    moreover have "k \<le> Max {x \<in> set ks. x \<le> m}"
      using low x by (intro Max_ge_iff [THEN iffD2]) auto
    ultimately have "Max {x \<in> set (k # ks). x \<le> m} = Max {x \<in> set ks. x \<le> m}"
      using ne by (simp add: max_def)
    then show ?thesis
      using True km Cons.IH [OF srt] by simp
  next
    case False
    show ?thesis
    proof (cases "k \<le> m")
      case True
      have "{x \<in> set (k # ks). x \<le> m} = {k}"
        using True False by auto
      then show ?thesis
        using True False Cons.IH [OF srt] by simp
    next
      case nk: False
      then show ?thesis
        using False Cons.IH [OF srt] by simp
    qed
  qed
qed

lemma getSizeLabel_Max:
  "getSizeLabel m (Some sizes) =
     (if \<exists>k \<in> fst ` set sizes. k \<le> m
      then Some (''size/'' @ sizes_at sizes (Max {k \<in> fst ` set sizes. k \<le> m}))
      else None)"
  by (simp add: getSizeLabel_def Object_keys_def labelLoop_sorted)

lemma sizes_at_distinct:
  "distinct (map fst sizes) \<Longrightarrow> (k, v) \<in> set sizes \<Longrightarrow> sizes_at sizes k = v"
  by (simp add: sizes_at_def)

text \<open>The classifier on the default table, and the indices of its tiers.\<close>

lemma getSizeLabel_default:
  "getSizeLabel m None =
     (if 20000 \<le> m then Some ''size/XXL''
      else if 10000 \<le> m then Some ''size/XL''
      else if 5000 \<le> m then Some ''size/L''
      else if 1000 \<le> m then Some ''size/M''
      else if 100 \<le> m then Some ''size/S''
      else if 10 \<le> m then Some ''size/XS''
      else if 1 \<le> m then Some ''size/XXS''
      else None)"
  by (simp add: getSizeLabel_def defaultSizes_def Object_keys_def sizes_at_def)

lemma tierLabels_eq:
  "tierLabels =
     [''size/XXS'', ''size/XS'', ''size/S'', ''size/M'', ''size/L'', ''size/XL'', ''size/XXL'']"
  by (simp add: tierLabels_def defaultSizes_def Object_keys_def sizes_at_def)

lemma tierIndex_default:
  "tierIndex (getSizeLabel m None) =
     (if 20000 \<le> m then 7
      else if 10000 \<le> m then 6
      else if 5000 \<le> m then 5
      else if 1000 \<le> m then 4
      else if 100 \<le> m then 3
      else if 10 \<le> m then 2
      else if 1 \<le> m then 1
      else 0)"
  by (simp add: getSizeLabel_default tierIndex_def tierLabels_eq)

lemma getSizeLabel_desired: "desiredSizeLabel (getSizeLabel m sizes)"
proof (cases sizes)
  case None
  then show ?thesis
    by (simp add: getSizeLabel_default desiredSizeLabel_def startsWith_def)
next
  case (Some t)
  then show ?thesis
    by (simp add: getSizeLabel_Max desiredSizeLabel_def startsWith_def)
qed

text \<open>
  Claim C6: for a table with unique keys and every metric, \<open>getSizeLabel\<close> returns
  \<open>size/\<close> followed by the label of the greatest key that is at most the metric, and
  \<open>null\<close> when every key is above the metric; with the default table the metric 0 gives
  \<open>null\<close>.
\<close>

theorem getSizeLabel_greatest_key:
  assumes "distinct (map fst sizes)"
  shows "(\<forall>k v. (k, v) \<in> set sizes \<and> k \<le> m \<and> (\<forall>k' \<in> fst ` set sizes. k' \<le> m \<longrightarrow> k' \<le> k)
            \<longrightarrow> getSizeLabel m (Some sizes) = Some (''size/'' @ v)) \<and>
         ((\<forall>k \<in> fst ` set sizes. m < k) \<longrightarrow> getSizeLabel m (Some sizes) = None) \<and>
         getSizeLabel 0 None = None"
proof (intro conjI allI impI)
  fix k v
  assume h: "(k, v) \<in> set sizes \<and> k \<le> m \<and> (\<forall>k' \<in> fst ` set sizes. k' \<le> m \<longrightarrow> k' \<le> k)"
  then have kin: "k \<in> {k \<in> fst ` set sizes. k \<le> m}"
    by force
  have "Max {k \<in> fst ` set sizes. k \<le> m} = k"
  proof (rule Max_eqI)
    show "finite {k \<in> fst ` set sizes. k \<le> m}" by simp
    show "y \<le> k" if "y \<in> {k \<in> fst ` set sizes. k \<le> m}" for y
      using that h by blast
    show "k \<in> {k \<in> fst ` set sizes. k \<le> m}" by (rule kin)
  qed
  moreover have "sizes_at sizes k = v"
    using assms h by (simp add: sizes_at_distinct)
  moreover have "\<exists>k \<in> fst ` set sizes. k \<le> m"
    using kin by blast
  ultimately show "getSizeLabel m (Some sizes) = Some (''size/'' @ v)"
    by (simp only: getSizeLabel_Max if_True)
next
  assume "\<forall>k \<in> fst ` set sizes. m < k"
  then have "\<not> (\<exists>k \<in> fst ` set sizes. k \<le> m)" by force
  then show "getSizeLabel m (Some sizes) = None"
    by (simp only: getSizeLabel_Max if_False)
next
  show "getSizeLabel 0 None = None"
    by (simp add: getSizeLabel_default)
qed

theorem getSizeLabel_greatest_key_witness:
  "distinct (map fst [(10::nat, ''B''), (0, ''Z''), (5, ''A'')]) \<and>
   (5, ''A'') \<in> set [(10::nat, ''B''), (0, ''Z''), (5, ''A'')] \<and> (5::nat) \<le> 7 \<and>
   getSizeLabel 7 (Some [(10, ''B''), (0, ''Z''), (5, ''A'')]) = Some ''size/A'' \<and>
   distinct (map fst [(10::nat, ''B''), (5, ''A'')]) \<and>
   getSizeLabel 3 (Some [(10, ''B''), (5, ''A'')]) = None"
proof -
  have d1: "distinct (map fst [(10::nat, ''B''), (0, ''Z''), (5, ''A'')])" by simp
  have d2: "distinct (map fst [(10::nat, ''B''), (5, ''A'')])" by simp
  have "getSizeLabel 7 (Some [(10, ''B''), (0, ''Z''), (5, ''A'')]) = Some (''size/'' @ ''A'')"
    by (rule getSizeLabel_greatest_key
        [OF d1, THEN conjunct1, rule_format, where k = 5 and v = "''A''" and m = 7]) simp
  moreover have "getSizeLabel 3 (Some [(10, ''B''), (5, ''A'')]) = None"
    by (rule getSizeLabel_greatest_key
        [OF d2, THEN conjunct2, THEN conjunct1, rule_format, where m = 3]) auto
  ultimately show ?thesis by simp
qed

text \<open>
  Claim C9: with the default table, for metrics \<open>m1 < m2\<close> the tier selected for \<open>m2\<close> has
  an index at least that of the tier selected for \<open>m1\<close>, the absent label having index 0.
\<close>

theorem getSizeLabel_monotone:
  "m1 < m2 \<Longrightarrow> tierIndex (getSizeLabel m1 None) \<le> tierIndex (getSizeLabel m2 None)"
  by (simp add: tierIndex_default)

theorem getSizeLabel_monotone_witness:
  "(5::nat) < 50 \<and> tierIndex (getSizeLabel 5 None) \<le> tierIndex (getSizeLabel 50 None)"
proof -
  have h: "(5::nat) < 50" by simp
  from h getSizeLabel_monotone [OF h] show ?thesis
    by (rule conjI)
qed

subsection \<open>The reconciler after a metric of 0\<close>

text \<open>
  Claim C4: when the metric is 0 and the classifier returns no label (as it does with the
  default table), \<open>getLabelChanges\<close> returns a delta whose \<open>add\<close> list holds no name of
  the \<open>size/\<close> family, and every current label whose name starts with \<open>size/\<close> is in
  \<open>remove\<close>.
\<close>

theorem getLabelChanges_metric_zero:
  assumes "getSizeLabel 0 sizes = None"
  shows "getSizeLabel 0 None = None \<and>
         (\<exists>d. getLabelChanges (getSizeLabel 0 sizes) (map JObject labels) f = Inr d \<and>
              (\<forall>n. Some n \<in> set (add d) \<longrightarrow> \<not> startsWith n ''size/'') \<and>
              (\<forall>l \<in> set labels. startsWith (name l) ''size/'' \<longrightarrow> name l \<in> set (remove d)))"
proof
  show "getSizeLabel 0 None = None"
    by (simp add: getSizeLabel_default)
  show "\<exists>d. getLabelChanges (getSizeLabel 0 sizes) (map JObject labels) f = Inr d \<and>
          (\<forall>n. Some n \<in> set (add d) \<longrightarrow> \<not> startsWith n ''size/'') \<and>
          (\<forall>l \<in> set labels. startsWith (name l) ''size/'' \<longrightarrow> name l \<in> set (remove d))"
    unfolding assms getLabelChanges_objects
    by (auto simp: startsWith_def)
qed

theorem getLabelChanges_metric_zero_witness:
  "getSizeLabel 0 None = None \<and>
   (\<exists>d. getLabelChanges (getSizeLabel 0 None)
           (map JObject [\<lparr>name = ''size/S''\<rparr>, \<lparr>name = ''bug''\<rparr>, \<lparr>name = ''size/XXS''\<rparr>]) False = Inr d \<and>
        (\<forall>n. Some n \<in> set (add d) \<longrightarrow> \<not> startsWith n ''size/'') \<and>
        (\<forall>l \<in> set [\<lparr>name = ''size/S''\<rparr>, \<lparr>name = ''bug''\<rparr>, \<lparr>name = ''size/XXS''\<rparr>].
            startsWith (name l) ''size/'' \<longrightarrow> name l \<in> set (remove d)))"
proof -
  have h: "getSizeLabel 0 None = None"
    by (simp add: getSizeLabel_default)
  show ?thesis
    by (rule getLabelChanges_metric_zero [OF h])
qed

section \<open>The ignore predicate and the metric\<close>

subsection \<open>Rule evaluation\<close>

text \<open>
  A matching \<open>not\<close> entry ends the loop with \<open>false\<close>, whatever stands before or after it
  and whatever \<open>ignore\<close> holds by then.
\<close>

lemma ignoreLoop_not_match:
  "regexMatch r pathname \<Longrightarrow>
   \<not> ignoreLoop regexMatch pathname (pre @ EntryNot r # post) ignore"
proof (induction pre arbitrary: ignore)
  case Nil
  then show ?case by simp
next
  case (Cons e pre)
  then show ?case by (cases e) simp_all
qed

text \<open>Once \<open>ignore\<close> is set, an exclude entry leaves it as it is.\<close>

lemma ignoreLoop_ignore_kept:
  "ignoreLoop regexMatch pathname (EntryRegex r # rest) True =
   ignoreLoop regexMatch pathname rest True"
  by simp

lemma ignoreLoop_iff:
  "ignoreLoop regexMatch pathname ignored ignore \<longleftrightarrow>
     (ignore \<or> (\<exists>r. EntryRegex r \<in> set ignored \<and> regexMatch r pathname)) \<and>
     (\<forall>r. EntryNot r \<in> set ignored \<longrightarrow> \<not> regexMatch r pathname)"
proof (induction ignored arbitrary: ignore)
  case Nil
  then show ?case by simp
next
  case (Cons e ignored)
  show ?case
  proof (cases e)
    case (EntryNot r)
    then show ?thesis using Cons.IH [of ignore] by auto
  next
    case (EntryRegex r)
    then show ?thesis using Cons.IH [of True] Cons.IH [of ignore] by auto
  qed
qed

lemma isIgnored_missing:
  "isIgnored regexMatch ignored None" "isIgnored regexMatch ignored (Some ''/dev/null'')"
  by (simp_all add: isIgnored_def)

text \<open>The rules \<open>docs/**\<close> and \<open>!docs/keep.md\<close>, parsed and applied.\<close>

lemma parseIgnored_docs:
  "parseIgnored specGlobrex (Some (''docs/**'' @ [CHR 0x0A] @ ''!docs/keep.md'')) =
     Inr [EntryRegex ''docs/**'', EntryNot ''docs/keep.md'']"
  by (simp add: parseIgnored_def specGlobrex_def trim_def isWhiteSpace_def isLineBreak_def
      startsWith_def)

lemma isIgnored_docs_keep:
  "\<not> isIgnored globMatch [EntryRegex ''docs/**'', EntryNot ''docs/keep.md'']
       (Some ''a/docs/keep.md'')"
  by (simp add: isIgnored_def)

lemma isIgnored_docs_other:
  "isIgnored globMatch [EntryRegex ''docs/**'', EntryNot ''docs/keep.md'']
     (Some ''a/docs/other.md'')"
  by (simp add: isIgnored_def)

text \<open>
  Claim C7: for a path other than the \<open>/dev/null\<close> sentinel, a matching negate rule makes
  the path not ignored wherever it stands among the rules; without one, the path is ignored
  exactly when some exclude rule matches, so a path that matches no rule is not ignored.
  With the rules \<open>docs/**\<close> and \<open>!docs/keep.md\<close>, \<open>a/docs/keep.md\<close> is not ignored and
  \<open>a/docs/other.md\<close> is ignored.
\<close>

theorem isIgnored_rules:
  "(p \<noteq> ''/dev/null'' \<and> regexMatch r (drop 2 p)
      \<longrightarrow> \<not> isIgnored regexMatch (pre @ EntryNot r # post) (Some p)) \<and>
   (p \<noteq> ''/dev/null''
      \<longrightarrow> (isIgnored regexMatch ignored (Some p) \<longleftrightarrow>
             (\<exists>r. EntryRegex r \<in> set ignored \<and> regexMatch r (drop 2 p)) \<and>
             (\<forall>r. EntryNot r \<in> set ignored \<longrightarrow> \<not> regexMatch r (drop 2 p)))) \<and>
   (\<exists>rules. parseIgnored specGlobrex (Some (''docs/**'' @ [CHR 0x0A] @ ''!docs/keep.md'')) = Inr rules \<and>
      \<not> isIgnored globMatch rules (Some ''a/docs/keep.md'') \<and>
      isIgnored globMatch rules (Some ''a/docs/other.md''))"
proof (intro conjI impI)
  assume "p \<noteq> ''/dev/null'' \<and> regexMatch r (drop 2 p)"
  then show "\<not> isIgnored regexMatch (pre @ EntryNot r # post) (Some p)"
    by (simp add: isIgnored_def ignoreLoop_not_match)
next
  assume "p \<noteq> ''/dev/null''"
  then show "isIgnored regexMatch ignored (Some p) \<longleftrightarrow>
      (\<exists>r. EntryRegex r \<in> set ignored \<and> regexMatch r (drop 2 p)) \<and>
      (\<forall>r. EntryNot r \<in> set ignored \<longrightarrow> \<not> regexMatch r (drop 2 p))"
    by (simp add: isIgnored_def ignoreLoop_iff)
next
  show "\<exists>rules. parseIgnored specGlobrex (Some (''docs/**'' @ [CHR 0x0A] @ ''!docs/keep.md'')) = Inr rules \<and>
      \<not> isIgnored globMatch rules (Some ''a/docs/keep.md'') \<and>
      isIgnored globMatch rules (Some ''a/docs/other.md'')"
    using parseIgnored_docs isIgnored_docs_keep isIgnored_docs_other by blast
qed

theorem isIgnored_rules_witness:
  "''b/README.md'' \<noteq> ''/dev/null'' \<and> globMatch ''README.md'' (drop 2 ''b/README.md'') \<and>
   \<not> isIgnored globMatch ([EntryRegex ''*.md''] @ EntryNot ''README.md'' # [EntryRegex ''**''])
       (Some ''b/README.md'') \<and>
   ''b/src/x.js'' \<noteq> ''/dev/null'' \<and>
   \<not> isIgnored globMatch [EntryRegex ''*.md'', EntryNot ''README.md''] (Some ''b/src/x.js'')"
proof -
  have a: "''b/README.md'' \<noteq> ''/dev/null'' \<and> globMatch ''README.md'' (drop 2 ''b/README.md'')"
    by simp
  have b: "''b/src/x.js'' \<noteq> ''/dev/null''"
    by simp
  have "\<not> isIgnored globMatch ([EntryRegex ''*.md''] @ EntryNot ''README.md'' # [EntryRegex ''**''])
       (Some ''b/README.md'')"
    using a isIgnored_rules [THEN conjunct1, rule_format,
        of "''b/README.md''" globMatch "''README.md''" "[EntryRegex ''*.md'']" "[EntryRegex ''**'']"]
    by blast
  moreover have "\<not> isIgnored globMatch [EntryRegex ''*.md'', EntryNot ''README.md''] (Some ''b/src/x.js'')"
    using isIgnored_rules [THEN conjunct2, THEN conjunct1, rule_format, OF b,
        of globMatch "[EntryRegex ''*.md'', EntryNot ''README.md'']"]
    by simp
  ultimately show ?thesis
    using a b by simp
qed

subsection \<open>Which files count\<close>

lemma lineLoop_add: "lineLoop ls n = n + lineLoop ls 0"
proof (induction ls arbitrary: n)
  case Nil
  then show ?case by simp
next
  case (Cons l ls)
  show ?case
    using Cons.IH [of "n + ukrainianMatches l"] Cons.IH [of "ukrainianMatches l"] Cons.IH [of n]
    by simp
qed

lemma hunkLoop_add: "hunkLoop hs n = n + hunkLoop hs 0"
proof (induction hs arbitrary: n)
  case Nil
  then show ?case by simp
next
  case (Cons h hs)
  show ?case
    using Cons.IH [of "lineLoop (lines h) n"] Cons.IH [of "lineLoop (lines h) 0"]
      lineLoop_add [of "lines h" n]
    by simp
qed

lemma fileLoop_sum:
  "fileLoop ignored diffData n =
     n + sum_list (map (\<lambda>f. hunkLoop (hunks f) 0)
           (filter (\<lambda>f. \<not> (ignored (oldFileName f) \<and> ignored (newFileName f))) diffData))"
proof (induction diffData arbitrary: n)
  case Nil
  then show ?case by simp
next
  case (Cons f diffData)
  show ?case
    using Cons.IH [of "hunkLoop (hunks f) n"] Cons.IH [of n] hunkLoop_add [of "hunks f" n]
    by simp
qed

text \<open>
  Claim C8: the metric is the sum, over the files of the diff that are not ignored on both
  their old and their new path, of the count of each such file; a file whose two paths are
  both ignored adds nothing. A missing path and \<open>/dev/null\<close> are ignored.
\<close>

theorem ukrainianCharactersNumber_included_files:
  "ukrainianCharactersNumber (isIgnored regexMatch ignored) diffData =
     sum_list (map (\<lambda>f. hunkLoop (hunks f) 0)
       (filter (\<lambda>f. \<not> (isIgnored regexMatch ignored (oldFileName f) \<and>
                        isIgnored regexMatch ignored (newFileName f))) diffData)) \<and>
   isIgnored regexMatch ignored None \<and>
   isIgnored regexMatch ignored (Some ''/dev/null'')"
  by (simp add: ukrainianCharactersNumber_def fileLoop_sum isIgnored_missing)

theorem ukrainianCharactersNumber_included_files_witness:
  "ukrainianCharactersNumber (isIgnored globMatch [EntryRegex ''docs/**''])
     [\<lparr>oldFileName = Some ''/dev/null'', newFileName = Some ''b/x.md'',
       hunks = [\<lparr>lines = [[0x2B, 0x0410, 0x41, 0x04FF], [0x2D, 0x0410], [], [0x20, 0x0411]]\<rparr>]\<rparr>,
      \<lparr>oldFileName = Some ''a/docs/y.md'', newFileName = None,
       hunks = [\<lparr>lines = [[0x2B, 0x0410]]\<rparr>]\<rparr>,
      \<lparr>oldFileName = Some ''a/docs/z.md'', newFileName = Some ''b/z.md'',
       hunks = [\<lparr>lines = [[0x2B, 0x0410, 0x0411, 0x0412]]\<rparr>]\<rparr>] = 5"
  unfolding ukrainianCharactersNumber_included_files [THEN conjunct1]
  by (simp add: isIgnored_def isAddedLine_def ukrainianMatches_def)

end
